theory Spec2Isabelle
  imports Main "HOL-Library.Char_ord" "HOL-Library.List_Lexorder" "HOL-Library.Multiset"
begin

section \<open>JavaScript strings\<close>

text \<open>
  A JavaScript string is modelled as a \<open>string\<close>. The separators the gallery script
  splits on (\<open>/\<close> and \<open>_\<close>) and the marker character \<open>|\<close> are ASCII, so splitting
  a UTF-8 byte sequence and splitting the UTF-16 string cut at the same places.
\<close>

text \<open>\<open>s.split(sep)\<close> for a one-character separator: never empty, \<open>"".split(sep)\<close> is \<open>[""]\<close>.\<close>

fun js_split :: "char \<Rightarrow> string \<Rightarrow> string list" where
  "js_split sep [] = [[]]"
| "js_split sep (c # cs) =
     (if c = sep then [] # js_split sep cs
      else (case js_split sep cs of
              [] \<Rightarrow> [[c]]
            | p # ps \<Rightarrow> (c # p) # ps))"

text \<open>\<open>parts.join(sep)\<close>.\<close>

fun js_join :: "char \<Rightarrow> string list \<Rightarrow> string" where
  "js_join sep [] = []"
| "js_join sep [p] = p"
| "js_join sep (p # q # ps) = p @ sep # js_join sep (q # ps)"

definition startsWith :: "string \<Rightarrow> string \<Rightarrow> bool" where
  "startsWith s pre = (take (length pre) s = pre)"

definition endsWith :: "string \<Rightarrow> string \<Rightarrow> bool" where
  "endsWith s suf = (length suf \<le> length s \<and> drop (length s - length suf) s = suf)"

text \<open>\<open>s.includes(t)\<close>: \<open>t\<close> occurs somewhere in \<open>s\<close>.\<close>

fun js_includes :: "string \<Rightarrow> string \<Rightarrow> bool" where
  "js_includes [] t = (t = [])"
| "js_includes (c # cs) t = (startsWith (c # cs) t \<or> js_includes cs t)"

section \<open>Filename decoder (script.js)\<close>

text \<open>\<open>s3Key.split('/').pop()\<close>: the part of the key after its last slash.\<close>

definition basename :: "string \<Rightarrow> string" where
  "basename s3Key = last (js_split CHR ''/'' s3Key)"

text \<open>The test of the loop in \<open>extractOriginalFilename\<close>: a token wrapped in pipes.\<close>

definition is_marker :: "string \<Rightarrow> bool" where
  "is_marker part = (startsWith part ''|'' \<and> endsWith part ''|'')"

text \<open>
  The \<open>for\<close> loop over \<open>parts\<close>, started at index \<open>i\<close>: \<open>startIndex\<close> is one past the
  first marker token, and keeps its initial value \<open>0\<close> when the loop finds none.
\<close>

fun marker_loop :: "string list \<Rightarrow> nat \<Rightarrow> nat" where
  "marker_loop [] i = 0"
| "marker_loop (part # rest) i =
     (if is_marker part then i + 1 else marker_loop rest (i + 1))"

definition skip_x :: "string list \<Rightarrow> nat \<Rightarrow> nat" where
  "skip_x parts startIndex =
     (if startIndex < length parts \<and> parts ! startIndex = ''x''
      then startIndex + 1 else startIndex)"

definition extractOriginalFilename :: "string \<Rightarrow> string" where
  "extractOriginalFilename s3Key =
     (let filename = basename s3Key;
          parts = js_split CHR ''_'' filename;
          startIndex = skip_x parts (marker_loop parts 0)
      in js_join CHR ''_'' (drop startIndex parts))"

section \<open>JavaScript values, errors and the network\<close>

text \<open>
  The values the scripts receive from parsed JSON documents and keep in their arrays.
  \<open>JNum\<close> carries an integer: the scripts only test numbers for being zero and subtract
  calendar years. An object is the list of its properties.
\<close>

datatype jsval =
    JUndefined
  | JNull
  | JBool bool
  | JNum int
  | JStr string
  | JArr "jsval list"
  | JObj "(string \<times> jsval) list"

text \<open>A thrown value, with its message.\<close>

datatype js_error = Error string | TypeError string | SyntaxError string

fun message :: "js_error \<Rightarrow> string" where
  "message (Error m) = m"
| "message (TypeError m) = m"
| "message (SyntaxError m) = m"

text \<open>What \<open>if (v)\<close>, \<open>!v\<close>, \<open>v && w\<close> and \<open>v || w\<close> test.\<close>

fun truthy :: "jsval \<Rightarrow> bool" where
  "truthy JUndefined = False"
| "truthy JNull = False"
| "truthy (JBool b) = b"
| "truthy (JNum n) = (n \<noteq> 0)"
| "truthy (JStr s) = (s \<noteq> [])"
| "truthy (JArr xs) = True"
| "truthy (JObj kvs) = True"

definition js_or :: "jsval \<Rightarrow> jsval \<Rightarrow> jsval" where
  "js_or a b = (if truthy a then a else b)"

text \<open>Reading \<open>obj[k]\<close> in a property list: \<open>undefined\<close> when the property is missing.\<close>

definition obj_get :: "(string \<times> jsval) list \<Rightarrow> string \<Rightarrow> jsval" where
  "obj_get kvs k = (case map_of kvs k of None \<Rightarrow> JUndefined | Some v \<Rightarrow> v)"

text \<open>
  \<open>v.k\<close> for the property names the scripts read, none of which a string, a number, a
  boolean or an array defines: reading from \<open>null\<close> or \<open>undefined\<close> throws a TypeError.
\<close>

fun get_prop :: "jsval \<Rightarrow> string \<Rightarrow> js_error + jsval" where
  "get_prop JUndefined k = Inl (TypeError ''Cannot read properties of undefined'')"
| "get_prop JNull k = Inl (TypeError ''Cannot read properties of null'')"
| "get_prop (JObj kvs) k = Inr (obj_get kvs k)"
| "get_prop v k = Inr JUndefined"

text \<open>
  \<open>obj[k] = v\<close> on a property list, and the object spread \<open>{...base, ...src}\<close>, where a
  later source wins on a key both define.
\<close>

fun obj_set :: "string \<Rightarrow> jsval \<Rightarrow> (string \<times> jsval) list \<Rightarrow> (string \<times> jsval) list" where
  "obj_set k v [] = [(k, v)]"
| "obj_set k v ((k', v') # kvs) =
     (if k' = k then (k, v) # kvs else (k', v') # obj_set k v kvs)"

definition spread :: "(string \<times> jsval) list \<Rightarrow> (string \<times> jsval) list \<Rightarrow> (string \<times> jsval) list" where
  "spread base src = foldl (\<lambda>obj (k, v). obj_set k v obj) base src"

text \<open>
  A \<open>Response\<close>: its \<open>ok\<close> flag, status line, and what \<open>response.json()\<close> settles to.
  A \<open>fetch\<close> either rejects or resolves to a response.
\<close>

record response =
  ok :: bool
  status :: nat
  statusText :: string
  json :: "js_error + jsval"

datatype fetch_result = Rejected js_error | Resolved response

text \<open>A fetch that failed: it rejected, or its response is not ok.\<close>

fun fetch_failed :: "fetch_result \<Rightarrow> bool" where
  "fetch_failed (Rejected e) = True"
| "fetch_failed (Resolved r) = (\<not> ok r)"

text \<open>Arrays whose callback may throw: \<open>map\<close> and \<open>filter\<close> stop at the first throw.\<close>

fun map_throw :: "('a \<Rightarrow> 'e + 'b) \<Rightarrow> 'a list \<Rightarrow> 'e + 'b list" where
  "map_throw f [] = Inr []"
| "map_throw f (x # xs) =
     (case f x of
        Inl e \<Rightarrow> Inl e
      | Inr y \<Rightarrow> (case map_throw f xs of Inl e \<Rightarrow> Inl e | Inr ys \<Rightarrow> Inr (y # ys)))"

fun filter_throw :: "('a \<Rightarrow> 'e + bool) \<Rightarrow> 'a list \<Rightarrow> 'e + 'a list" where
  "filter_throw f [] = Inr []"
| "filter_throw f (x # xs) =
     (case f x of
        Inl e \<Rightarrow> Inl e
      | Inr keep \<Rightarrow>
          (case filter_throw f xs of
             Inl e \<Rightarrow> Inl e
           | Inr ys \<Rightarrow> Inr (if keep then x # ys else ys)))"

text \<open>
  \<open>Array.prototype.sort\<close> with a comparison function: the sort is stable, and for a
  consistent comparison function its result is the stable insertion sort below.
\<close>

fun insert_by :: "('a \<Rightarrow> 'a \<Rightarrow> int) \<Rightarrow> 'a \<Rightarrow> 'a list \<Rightarrow> 'a list" where
  "insert_by cmp x [] = [x]"
| "insert_by cmp x (y # ys) =
     (if cmp x y \<le> 0 then x # y # ys else y # insert_by cmp x ys)"

definition js_sort :: "('a \<Rightarrow> 'a \<Rightarrow> int) \<Rightarrow> 'a list \<Rightarrow> 'a list" where
  "js_sort cmp xs = foldr (insert_by cmp) xs []"

text \<open>
  A consistent comparison function: the sign flips with the arguments, and being
  ordered before or equal is transitive.
\<close>

definition consistent :: "('a \<Rightarrow> 'a \<Rightarrow> int) \<Rightarrow> bool" where
  "consistent cmp =
     ((\<forall>a b. (cmp a b < 0) = (0 < cmp b a))
      \<and> (\<forall>a b c. cmp a b \<le> 0 \<and> cmp b c \<le> 0 \<longrightarrow> cmp a c \<le> 0))"

text \<open>\<open>array.splice(start, deleteCount, ...items)\<close>: the removed elements and the new array.\<close>

definition splice_start :: "int \<Rightarrow> nat \<Rightarrow> nat" where
  "splice_start start len =
     (if start < 0 then nat (max (int len + start) 0) else min (nat start) len)"

definition splice :: "int \<Rightarrow> nat \<Rightarrow> 'a list \<Rightarrow> 'a list \<Rightarrow> 'a list \<times> 'a list" where
  "splice start deleteCount items xs =
     (let s = splice_start start (length xs)
      in (take deleteCount (drop s xs), take s xs @ items @ drop (s + deleteCount) xs))"

text \<open>\<open>array.indexOf(v)\<close>, searching from index \<open>i\<close>: \<open>-1\<close> when \<open>v\<close> does not occur.\<close>

fun indexOf_from :: "jsval list \<Rightarrow> jsval \<Rightarrow> int \<Rightarrow> int" where
  "indexOf_from [] v i = -1"
| "indexOf_from (x # xs) v i = (if x = v then i else indexOf_from xs v (i + 1))"

definition indexOf :: "jsval list \<Rightarrow> jsval \<Rightarrow> int" where
  "indexOf xs v = indexOf_from xs v 0"

text \<open>A number in a template literal.\<close>

fun show_nat :: "nat \<Rightarrow> string" where
  "show_nat n =
     (if n < 10 then [char_of (48 + n)]
      else show_nat (n div 10) @ [char_of (48 + n mod 10)])"

section \<open>Order resolver (script.js)\<close>

definition S3_BASE_URL :: string where
  "S3_BASE_URL = ''https://order-by-age-uploads.s3.amazonaws.com''"

definition customOrderUrl :: "string \<Rightarrow> string" where
  "customOrderUrl uid = S3_BASE_URL @ ''/metadata/'' @ uid @ ''/custom_order.json''"

definition manifestUrl :: "string \<Rightarrow> string" where
  "manifestUrl uid = S3_BASE_URL @ ''/metadata/'' @ uid @ ''/final_filenames.json''"

text \<open>
  The module state (\<open>photoOrder\<close>, \<open>uid\<close>) and the page elements the script switches:
  the text of \<open>#photoCount\<close> and which blocks are displayed. The page is taken to hold
  every element the script looks up and the drag-and-drop library to be loaded, so the
  calls that build the gallery do not throw; the thumbnails themselves are not modelled.
\<close>

record page =
  uid :: "string option"
  photoOrder :: "jsval list"
  photoCount :: nat
  bottomDownload :: bool
  loadingState :: bool
  galleryContainer :: bool
  downloadSection :: bool
  errorState :: bool
  errorDetail :: string

record photo_entry =
  s3Key :: string
  filename :: string
  originalFilename :: string

text \<open>\<open>${uid}\<close> in a template literal.\<close>

definition uid_text :: "page \<Rightarrow> string" where
  "uid_text p = (case uid p of None \<Rightarrow> ''null'' | Some u \<Rightarrow> u)"

text \<open>
  \<open>loadCustomOrder\<close>: the \<open>order\<close> property of the fetched document, and \<open>null\<close> when the
  fetch rejects, the response is not ok, or anything inside the \<open>try\<close> throws.
\<close>

definition loadCustomOrder :: "(string \<Rightarrow> fetch_result) \<Rightarrow> page \<Rightarrow> jsval" where
  "loadCustomOrder fetch p =
     (case fetch (customOrderUrl (uid_text p)) of
        Rejected e \<Rightarrow> JNull
      | Resolved r \<Rightarrow>
          if ok r then
            (case json r of
               Inl e \<Rightarrow> JNull
             | Inr data \<Rightarrow> (case get_prop data ''order'' of Inl e \<Rightarrow> JNull | Inr v \<Rightarrow> v))
          else JNull)"

text \<open>
  The callback of both \<open>map\<close> calls in \<open>loadPhotos\<close>, on the key: \<open>split\<close> exists on
  strings only.
\<close>

fun entry_of_key :: "jsval \<Rightarrow> js_error + photo_entry" where
  "entry_of_key (JStr k) =
     Inr \<lparr>s3Key = k, filename = basename k, originalFilename = extractOriginalFilename k\<rparr>"
| "entry_of_key v = Inl (TypeError ''s3Key.split is not a function'')"

definition entries_of_custom :: "jsval \<Rightarrow> js_error + photo_entry list" where
  "entries_of_custom customOrder =
     (case customOrder of
        JArr keys \<Rightarrow> map_throw entry_of_key keys
      | _ \<Rightarrow> Inl (TypeError ''customOrder.map is not a function''))"

text \<open>
  The \<open>filter\<close> callback on a manifest entry:
  \<open>entry.final_key && !entry.final_key.endsWith('.ready')\<close>.
\<close>

definition manifest_keep :: "jsval \<Rightarrow> js_error + bool" where
  "manifest_keep entry =
     (case get_prop entry ''final_key'' of
        Inl e \<Rightarrow> Inl e
      | Inr k \<Rightarrow>
          if \<not> truthy k then Inr False
          else (case k of
                  JStr s \<Rightarrow> Inr (\<not> endsWith s ''.ready'')
                | _ \<Rightarrow> Inl (TypeError ''entry.final_key.endsWith is not a function'')))"

definition entry_of_manifest :: "jsval \<Rightarrow> js_error + photo_entry" where
  "entry_of_manifest entry =
     (case get_prop entry ''final_key'' of Inl e \<Rightarrow> Inl e | Inr k \<Rightarrow> entry_of_key k)"

text \<open>
  The \<open>else\<close> branch of \<open>loadPhotos\<close>. \<open>localeCompare\<close> is the platform's collation of
  two strings, a parameter of the model.
\<close>

definition entries_of_manifest ::
  "(string \<Rightarrow> fetch_result) \<Rightarrow> (string \<Rightarrow> string \<Rightarrow> int) \<Rightarrow> page \<Rightarrow> js_error + photo_entry list"
where
  "entries_of_manifest fetch localeCompare p =
     (case fetch (manifestUrl (uid_text p)) of
        Rejected e \<Rightarrow> Inl e
      | Resolved r \<Rightarrow>
          if \<not> ok r then
            Inl (Error (''Failed to fetch manifest: '' @ show_nat (status r) @ '' '' @ statusText r))
          else
            (case json r of
               Inl e \<Rightarrow> Inl e
             | Inr manifest \<Rightarrow>
                 (case manifest of
                    JArr entries \<Rightarrow>
                      (case filter_throw manifest_keep entries of
                         Inl e \<Rightarrow> Inl e
                       | Inr kept \<Rightarrow>
                           (case map_throw entry_of_manifest kept of
                              Inl e \<Rightarrow> Inl e
                            | Inr es \<Rightarrow>
                                Inr (js_sort (\<lambda>a b. localeCompare (filename a) (filename b)) es)))
                  | _ \<Rightarrow> Inl (TypeError ''manifest.filter is not a function''))))"

definition showLoading :: "bool \<Rightarrow> page \<Rightarrow> page" where
  "showLoading sh p =
     (if sh then p\<lparr>loadingState := True, galleryContainer := False, downloadSection := False\<rparr>
      else p\<lparr>loadingState := False, galleryContainer := True, downloadSection := True\<rparr>)"

text \<open>\<open>showError\<close> never reads its first parameter.\<close>

definition showError :: "string \<Rightarrow> string \<Rightarrow> page \<Rightarrow> page" where
  "showError msg detail p =
     (let p' = p\<lparr>loadingState := False, galleryContainer := False, downloadSection := False,
                 errorState := True\<rparr>
      in if detail \<noteq> [] then p'\<lparr>errorDetail := detail\<rparr> else p')"

text \<open>
  \<open>loadPhotos\<close>: the thrown error, if any, and the page as the function leaves it.
\<close>

definition loadPhotos ::
  "(string \<Rightarrow> fetch_result) \<Rightarrow> (string \<Rightarrow> string \<Rightarrow> int) \<Rightarrow> page \<Rightarrow> js_error option \<times> page"
where
  "loadPhotos fetch localeCompare p =
     (let p1 = showLoading True p;
          customOrder = loadCustomOrder fetch p1
      in case (if truthy customOrder then entries_of_custom customOrder
               else entries_of_manifest fetch localeCompare p1) of
           Inl e \<Rightarrow> (Some e, p1)
         | Inr photoEntries \<Rightarrow>
             (None,
              showLoading False
                (p1\<lparr>photoOrder := map (\<lambda>entry. JStr (s3Key entry)) photoEntries,
                    photoCount := length photoEntries,
                    bottomDownload := (if 20 < length photoEntries then True
                                       else bottomDownload p1)\<rparr>)))"

text \<open>The \<open>DOMContentLoaded\<close> handler, given the \<open>uid\<close> parameter of the page's URL.\<close>

definition onDOMContentLoaded ::
  "(string \<Rightarrow> fetch_result) \<Rightarrow> (string \<Rightarrow> string \<Rightarrow> int) \<Rightarrow> string option \<Rightarrow> page \<Rightarrow> page"
where
  "onDOMContentLoaded fetch localeCompare param p =
     (let p0 = p\<lparr>uid := param\<rparr>
      in if param = None \<or> param = Some [] then
           showError ''No order ID provided. Please check your link.'' [] p0
         else
           (case loadPhotos fetch localeCompare p0 of
              (Some error, p1) \<Rightarrow>
                showError ''Failed to load photos. Please try again or contact support.''
                  (message error) p1
            | (None, p1) \<Rightarrow> p1))"

section \<open>Reorder, download and delete (script.js)\<close>

text \<open>The \<open>onEnd\<close> handler of the drag-and-drop list.\<close>

definition onEnd :: "int \<Rightarrow> int \<Rightarrow> page \<Rightarrow> page" where
  "onEnd oldIndex newIndex p =
     (if oldIndex \<noteq> newIndex then
        (let (removed, rest) = splice oldIndex 1 [] (photoOrder p);
             movedItem = (case removed of [] \<Rightarrow> JUndefined | x # _ \<Rightarrow> x)
         in p\<lparr>photoOrder := snd (splice newIndex 0 [movedItem] rest)\<rparr>)
      else p)"

text \<open>The object \<open>downloadAll\<close> serialises as the body of its POST request.\<close>

definition downloadAll_body :: "page \<Rightarrow> jsval" where
  "downloadAll_body p =
     JObj [(''uid'', (case uid p of None \<Rightarrow> JNull | Some u \<Rightarrow> JStr u)),
           (''photo_order'', JArr (photoOrder p))]"

text \<open>
  The update both removal paths of \<open>deletePhoto\<close> make: \<open>indexOf\<close>, then \<open>splice\<close> when
  the index is greater than \<open>-1\<close>; the photo count shows the new length.
\<close>

definition remove_from_order :: "string \<Rightarrow> page \<Rightarrow> page" where
  "remove_from_order key p =
     (let index = indexOf (photoOrder p) (JStr key);
          order = (if index > -1 then snd (splice index 1 [] (photoOrder p))
                   else photoOrder p)
      in p\<lparr>photoOrder := order, photoCount := length order\<rparr>)"

text \<open>
  \<open>deletePhoto\<close>, given the answer to the confirmation dialog and the outcome of the
  POST request. A response of any status, readable or not, takes the first removal path;
  a rejection whose message mentions \<open>CORS\<close> or \<open>NetworkError\<close> takes the second; any
  other rejection leaves the order as it is.
\<close>

definition deletePhoto :: "string \<Rightarrow> bool \<Rightarrow> fetch_result \<Rightarrow> page \<Rightarrow> page" where
  "deletePhoto key confirmed outcome p =
     (if \<not> confirmed then p
      else (case outcome of
              Resolved r \<Rightarrow> remove_from_order key p
            | Rejected error \<Rightarrow>
                if js_includes (message error) ''CORS''
                   \<or> js_includes (message error) ''NetworkError''
                then remove_from_order key p
                else p))"

section \<open>Analytics display\<close>

text \<open>
  \<open>AGE_BUCKETS\<close>: each bucket key with its \<open>label\<close> and \<open>shortLabel\<close>, in the order of
  the object literal, which is the order \<open>Object.keys\<close> lists them in.
\<close>

definition AGE_BUCKETS :: "(string \<times> string \<times> string) list" where
  "AGE_BUCKETS =
     [(''01-05'', ''0-5'', ''0-5''),
      (''06-10'', ''6-10'', ''6-10''),
      (''11-15'', ''11-15'', ''11-15''),
      (''16-20'', ''16-20'', ''16-20''),
      (''21-30'', ''21-30'', ''21-30''),
      (''31-40'', ''31-40'', ''31-40''),
      (''41-50'', ''41-50'', ''41-50''),
      (''51-60'', ''51-60'', ''51-60''),
      (''61-70'', ''61-70'', ''61-70''),
      (''71-80'', ''71-80'', ''71-80''),
      (''81+'', ''81+'', ''81+'')]"

definition bucketOrder :: "string list" where
  "bucketOrder = map fst AGE_BUCKETS"

definition bucket_label :: "string \<Rightarrow> string" where
  "bucket_label b = (case map_of AGE_BUCKETS b of None \<Rightarrow> [] | Some (label, shortLabel) \<Rightarrow> label)"

definition is_digit :: "char \<Rightarrow> bool" where
  "is_digit c = (c \<in> set ''0123456789'')"

text \<open>
  \<open>filename.match(/^(\d{2}-\d{2}|\d{2}\+)/)\<close>: the captured group, the first
  alternative tried first; \<open>None\<close> when the match is \<open>null\<close>.
\<close>

definition bucket_match :: "string \<Rightarrow> string option" where
  "bucket_match fname =
     (if 5 \<le> length fname \<and> is_digit (fname ! 0) \<and> is_digit (fname ! 1)
         \<and> fname ! 2 = CHR ''-'' \<and> is_digit (fname ! 3) \<and> is_digit (fname ! 4)
      then Some (take 5 fname)
      else if 3 \<le> length fname \<and> is_digit (fname ! 0) \<and> is_digit (fname ! 1)
         \<and> fname ! 2 = CHR ''+''
      then Some (take 3 fname)
      else None)"

text \<open>
  The bucket a key counts for: \<open>match && this.AGE_BUCKETS[match[1]]\<close> on the key's
  filename.
\<close>

definition photo_bucket :: "string \<Rightarrow> string option" where
  "photo_bucket key =
     (case bucket_match (basename key) of
        None \<Rightarrow> None
      | Some b \<Rightarrow> (if map_of AGE_BUCKETS b \<noteq> None then Some b else None))"

text \<open>\<open>bucketCounts[b]++\<close> and \<open>bucketCounts[b]\<close> on the table of counts.\<close>

fun increment :: "string \<Rightarrow> (string \<times> nat) list \<Rightarrow> (string \<times> nat) list" where
  "increment b [] = []"
| "increment b ((k, n) # rest) =
     (if k = b then (k, n + 1) # rest else (k, n) # increment b rest)"

definition count_of :: "(string \<times> nat) list \<Rightarrow> string \<Rightarrow> nat" where
  "count_of bucketCounts b = (case map_of bucketCounts b of None \<Rightarrow> 0 | Some n \<Rightarrow> n)"

text \<open>The \<open>forEach\<close> over \<open>photoOrder\<close>: a key that is not a string has no \<open>split\<close>.\<close>

fun count_photos :: "jsval list \<Rightarrow> (string \<times> nat) list \<Rightarrow> js_error + (string \<times> nat) list" where
  "count_photos [] bucketCounts = Inr bucketCounts"
| "count_photos (JStr key # keys) bucketCounts =
     count_photos keys
       (case photo_bucket key of None \<Rightarrow> bucketCounts | Some b \<Rightarrow> increment b bucketCounts)"
| "count_photos (v # keys) bucketCounts = Inl (TypeError ''key.split is not a function'')"

text \<open>The arrow of the age-range label, as its UTF-8 bytes.\<close>

definition arrow :: string where
  "arrow = [CHR 0xE2, CHR 0x86, CHR 0x92]"

definition parseFilenames :: "jsval list \<Rightarrow> js_error + (string \<times> jsval) list" where
  "parseFilenames order =
     (case count_photos order (map (\<lambda>bucket. (bucket, 0)) bucketOrder) of
        Inl e \<Rightarrow> Inl e
      | Inr bucketCounts \<Rightarrow>
          (let bucketsWithPhotos = filter (\<lambda>b. 0 < count_of bucketCounts b) bucketOrder
           in if length bucketsWithPhotos = 0 then
                Inr [(''ageRangeLabel'', JNull), (''bucketCounts'', JNull)]
              else
                (let youngest = hd bucketsWithPhotos;
                     oldest = last bucketsWithPhotos
                 in Inr [(''bucketCounts'', JObj (map (\<lambda>(b, n). (b, JNum (int n))) bucketCounts)),
                         (''youngestBucket'', JStr youngest),
                         (''oldestBucket'', JStr oldest),
                         (''ageRangeLabel'',
                            JStr (bucket_label youngest @ '' '' @ arrow @ '' '' @ bucket_label oldest))])))"

definition presentationSettingsUrl :: "string \<Rightarrow> string" where
  "presentationSettingsUrl u =
     ''https://order-by-age-uploads.s3.amazonaws.com/metadata/'' @ u @ ''/presentation_settings.json''"

definition processingStatsUrl :: "string \<Rightarrow> string" where
  "processingStatsUrl u =
     ''https://order-by-age-uploads.s3.amazonaws.com/face-intermediate/'' @ u @ ''/pre_merge_data.json''"

definition fetchPresentationSettings :: "(string \<Rightarrow> fetch_result) \<Rightarrow> string \<Rightarrow> (string \<times> jsval) list" where
  "fetchPresentationSettings fetch u =
     (case fetch (presentationSettingsUrl u) of
        Rejected e \<Rightarrow> []
      | Resolved r \<Rightarrow>
          if \<not> ok r then []
          else (case json r of
                  Inl e \<Rightarrow> []
                | Inr data \<Rightarrow>
                    (case (get_prop data ''birthdate'', get_prop data ''deathdate'',
                           get_prop data ''deceased_first_name'', get_prop data ''deceased_full_name'') of
                       (Inr birthdate, Inr deathdate, Inr first_name, Inr full_name) \<Rightarrow>
                         [(''birthdate'', js_or birthdate JNull),
                          (''deathdate'', js_or deathdate JNull),
                          (''deceasedName'', js_or (js_or first_name full_name) JNull)]
                     | _ \<Rightarrow> [])))"

definition fetchProcessingStats :: "(string \<Rightarrow> fetch_result) \<Rightarrow> string \<Rightarrow> (string \<times> jsval) list" where
  "fetchProcessingStats fetch u =
     (case fetch (processingStatsUrl u) of
        Rejected e \<Rightarrow> []
      | Resolved r \<Rightarrow>
          if \<not> ok r then []
          else (case json r of
                  Inl e \<Rightarrow> []
                | Inr data \<Rightarrow>
                    (case get_prop data ''enhanced_processing_stats'' of
                       Inl e \<Rightarrow> []
                     | Inr v \<Rightarrow>
                         (let stats = js_or v (JObj [])
                          in case (get_prop stats ''total_faces_indexed'', get_prop stats ''total_photos'') of
                               (Inr faces, Inr photos) \<Rightarrow>
                                 [(''totalFacesIndexed'', js_or faces JNull),
                                  (''totalPhotosProcessed'', js_or photos JNull)]
                             | _ \<Rightarrow> []))))"

text \<open>
  \<open>calculateYearsOfMemories\<close>. \<open>fullYear v\<close> stands for \<open>new Date(v).getFullYear()\<close>, the
  calendar year the platform reads from a value in the browser's time zone, \<open>None\<close> when
  it is \<open>NaN\<close>; a difference with \<open>NaN\<close> is \<open>NaN\<close>, which is not greater than zero.
\<close>

definition calculateYearsOfMemories :: "(jsval \<Rightarrow> int option) \<Rightarrow> (string \<times> jsval) list \<Rightarrow> jsval" where
  "calculateYearsOfMemories fullYear stats =
     (if truthy (obj_get stats ''birthdate'') \<and> truthy (obj_get stats ''deathdate'') then
        (case (fullYear (obj_get stats ''birthdate''), fullYear (obj_get stats ''deathdate'')) of
           (Some birth, Some death) \<Rightarrow>
             (let years = death - birth in if years > 0 then JNum years else JNull)
         | _ \<Rightarrow> JNull)
      else JNull)"

text \<open>
  What \<open>render\<close> inserts after the photo count: for each of the four parts of the box,
  the values its template interpolates, \<open>None\<close> for a part left empty.
\<close>

record analytics_box =
  yearsLine :: "jsval option"
  ageRangeLine :: "jsval option"
  chartHtml :: "jsval option"
  technicalLine :: "(jsval \<times> jsval option) option"

text \<open>
  \<open>render\<close>, given whether the page has a \<open>.photo-count\<close> element: \<open>None\<close> when nothing
  is inserted.
\<close>

definition render :: "(string \<times> jsval) list \<Rightarrow> bool \<Rightarrow> analytics_box option" where
  "render stats photoCountEl =
     (if \<not> truthy (obj_get stats ''yearsOfMemories'') \<and> \<not> truthy (obj_get stats ''ageRangeLabel'')
      then None
      else
        (let photoCount = js_or (obj_get stats ''photoCount'') (obj_get stats ''totalPhotosProcessed'');
             faceCount = obj_get stats ''totalFacesIndexed'';
             box = \<lparr>yearsLine = (if truthy (obj_get stats ''yearsOfMemories'')
                                  then Some (obj_get stats ''yearsOfMemories'') else None),
                    ageRangeLine = (if truthy (obj_get stats ''ageRangeLabel'')
                                     then Some (obj_get stats ''ageRangeLabel'') else None),
                    chartHtml = (if truthy (obj_get stats ''bucketCounts'')
                                  then Some (obj_get stats ''bucketCounts'') else None),
                    technicalLine = (if truthy photoCount \<and> truthy faceCount
                                       then Some (photoCount, Some faceCount)
                                     else if truthy photoCount then Some (photoCount, None)
                                     else None)\<rparr>
         in if photoCountEl then Some box else None))"

text \<open>
  The stats record \<open>init\<close> builds before it calls \<open>render\<close>, and \<open>init\<close> itself, which
  catches whatever is thrown and then inserts nothing.
\<close>

definition init_stats ::
  "(string \<Rightarrow> fetch_result) \<Rightarrow> (jsval \<Rightarrow> int option) \<Rightarrow> string \<Rightarrow> jsval list
     \<Rightarrow> js_error + (string \<times> jsval) list"
where
  "init_stats fetch fullYear u order =
     (case parseFilenames order of
        Inl e \<Rightarrow> Inl e
      | Inr filenameStats \<Rightarrow>
          (let settingsData = fetchPresentationSettings fetch u;
               processingStats = fetchProcessingStats fetch u;
               stats = spread (spread (spread [(''photoCount'', JNum (int (length order)))]
                                         filenameStats) settingsData) processingStats
           in Inr (obj_set ''yearsOfMemories'' (calculateYearsOfMemories fullYear stats) stats)))"

definition init ::
  "(string \<Rightarrow> fetch_result) \<Rightarrow> (jsval \<Rightarrow> int option) \<Rightarrow> string \<Rightarrow> jsval list \<Rightarrow> bool
     \<Rightarrow> analytics_box option"
where
  "init fetch fullYear u order photoCountEl =
     (case init_stats fetch fullYear u order of
        Inl error \<Rightarrow> None
      | Inr stats \<Rightarrow> render stats photoCountEl)"

text \<open>
  The repository's other version of \<open>render\<close>, the one that shows stat cards: its gate
  tests the face count in place of the age-range label, and nothing between the gate and
  the insertion can throw. The model gives whether that version inserts its box.
\<close>

definition render_cards_inserts :: "(string \<times> jsval) list \<Rightarrow> bool \<Rightarrow> bool" where
  "render_cards_inserts stats photoCountEl =
     (if \<not> truthy (obj_get stats ''totalFacesIndexed'') \<and> \<not> truthy (obj_get stats ''yearsOfMemories'')
      then False
      else photoCountEl)"

section \<open>Sample inputs\<close>

text \<open>
  Concrete inputs for exercising the model: a comparison function that orders strings by
  their code units, a page before the script has run, servers that answer the two
  documents of an order, a response to a missing document, and a reading of the calendar
  year from the first four digits of a date string.
\<close>

definition codeunit_compare :: "string \<Rightarrow> string \<Rightarrow> int" where
  "codeunit_compare a b = (if a < b then -1 else if a = b then 0 else 1)"

definition page0 :: page where
  "page0 = \<lparr>uid = None, photoOrder = [], photoCount = 0, bottomDownload = False,
            loadingState = True, galleryContainer = False, downloadSection = False,
            errorState = False, errorDetail = []\<rparr>"

definition serve :: "string \<Rightarrow> fetch_result \<Rightarrow> fetch_result \<Rightarrow> string \<Rightarrow> fetch_result" where
  "serve u custom manifest url =
     (if url = customOrderUrl u then custom
      else if url = manifestUrl u then manifest
      else Rejected (TypeError ''Failed to fetch''))"

definition ok_json :: "jsval \<Rightarrow> fetch_result" where
  "ok_json doc = Resolved \<lparr>ok = True, status = 200, statusText = ''OK'', json = Inr doc\<rparr>"

definition not_found :: fetch_result where
  "not_found = Resolved \<lparr>ok = False, status = 404, statusText = ''Not Found'',
                          json = Inl (SyntaxError ''Unexpected token'')\<rparr>"

definition sample_manifest :: jsval where
  "sample_manifest =
     JArr [JObj [(''final_key'', JStr ''r/06-10(001)_|EX|_b.jpg'')],
           JObj [(''final_key'', JStr ''r/done.ready'')],
           JObj [(''original_key'', JStr ''up/c.jpg'')],
           JObj [(''final_key'', JStr ''r/01-05(003)_|EX|_x_a.jpg'')]]"

definition iso_year :: "jsval \<Rightarrow> int option" where
  "iso_year v =
     (case v of
        JStr s \<Rightarrow>
          (if 4 \<le> length s \<and> list_all is_digit (take 4 s)
           then Some (foldl (\<lambda>n c. 10 * n + (int (of_char c) - 48)) 0 (take 4 s))
           else None)
      | _ \<Rightarrow> None)"

definition offline :: "string \<Rightarrow> fetch_result" where
  "offline url = Rejected (TypeError ''Failed to fetch'')"

section \<open>Properties of the string operations\<close>

lemma js_split_not_Nil: "js_split sep s \<noteq> []"
  by (induction s) (auto split: list.splits)

lemma js_join_Cons:
  "ps \<noteq> [] \<Longrightarrow> js_join sep (p # ps) = p @ sep # js_join sep ps"
  by (cases ps) auto

lemma js_join_split: "js_join sep (js_split sep s) = s"
proof (induction s)
  case Nil
  show ?case by simp
next
  case (Cons c cs)
  show ?case
  proof (cases "c = sep")
    case True
    with Cons show ?thesis
      by (simp add: js_join_Cons js_split_not_Nil)
  next
    case False
    obtain p ps where sp: "js_split sep cs = p # ps"
      using js_split_not_Nil [of sep cs] by (cases "js_split sep cs") auto
    from Cons sp have "js_join sep (p # ps) = cs" by simp
    then have "js_join sep ((c # p) # ps) = c # cs"
      by (cases ps) auto
    with False sp show ?thesis by simp
  qed
qed

lemma marker_loop_none:
  "\<forall>part \<in> set parts. \<not> is_marker part \<Longrightarrow> marker_loop parts i = 0"
  by (induction parts arbitrary: i) auto

lemma marker_loop_found:
  "\<forall>part \<in> set pre. \<not> is_marker part \<Longrightarrow> is_marker m \<Longrightarrow>
   marker_loop (pre @ m # post) i = i + length pre + 1"
  by (induction pre arbitrary: i) auto

lemma basename_no_slash: "CHR ''/'' \<notin> set s \<Longrightarrow> js_split CHR ''/'' s = [s]"
  by (induction s) auto

lemma js_split_append_sep:
  "js_split sep (p @ sep # s) = js_split sep p @ js_split sep s"
proof (induction p)
  case Nil
  show ?case by simp
next
  case (Cons c cs)
  obtain q qs where sp: "js_split sep cs = q # qs"
    using js_split_not_Nil [of sep cs] by (cases "js_split sep cs") auto
  with Cons show ?case by auto
qed

lemma basename_prefix:
  "CHR ''/'' \<notin> set s \<Longrightarrow> basename (p @ CHR ''/'' # s) = s"
  by (simp add: basename_def js_split_append_sep basename_no_slash)

lemma extract_unmarked:
  assumes "\<forall>part \<in> set (js_split CHR ''_'' (basename key)). \<not> is_marker part"
    and "hd (js_split CHR ''_'' (basename key)) \<noteq> ''x''"
  shows "extractOriginalFilename key = basename key"
proof -
  let ?parts = "js_split CHR ''_'' (basename key)"
  have m: "marker_loop ?parts 0 = 0"
    using assms(1) by (rule marker_loop_none)
  have "?parts \<noteq> []" by (rule js_split_not_Nil)
  then have "?parts ! 0 = hd ?parts" by (simp add: hd_conv_nth)
  with assms(2) have "skip_x ?parts 0 = 0" by (simp add: skip_x_def)
  with m show ?thesis
    by (simp add: extractOriginalFilename_def js_join_split)
qed

section \<open>Properties of the loader, the sort and the page state\<close>

lemma uid_text_showLoading [simp]: "uid_text (showLoading b p) = uid_text p"
  by (simp add: uid_text_def showLoading_def)

lemma loadCustomOrder_showLoading [simp]:
  "loadCustomOrder fetch (showLoading b p) = loadCustomOrder fetch p"
  by (simp add: loadCustomOrder_def)

lemma entries_of_manifest_showLoading [simp]:
  "entries_of_manifest fetch cmp (showLoading b p) = entries_of_manifest fetch cmp p"
  by (simp add: entries_of_manifest_def)

lemma map_throw_all_str: "map_throw entry_of_key (map JStr keys)
    = Inr (map (\<lambda>k. \<lparr>s3Key = k, filename = basename k, originalFilename = extractOriginalFilename k\<rparr>) keys)"
  by (induction keys) auto

lemma entry_of_key_Inr:
  "entry_of_key v = Inr e \<Longrightarrow> v = JStr (s3Key e) \<and> filename e = basename (s3Key e)"
  by (cases v) auto

lemma map_throw_entry_of_key:
  "map_throw entry_of_key vs = Inr es \<Longrightarrow> map (\<lambda>entry. JStr (s3Key entry)) es = vs"
proof (induction vs arbitrary: es)
  case Nil
  then show ?case by simp
next
  case (Cons v vs)
  then show ?case
    by (auto split: sum.splits dest: entry_of_key_Inr)
qed

lemma map_throw_filename:
  "map_throw entry_of_manifest vs = Inr es \<Longrightarrow> \<forall>e \<in> set es. filename e = basename (s3Key e)"
proof (induction vs arbitrary: es)
  case Nil
  then show ?case by simp
next
  case (Cons v vs)
  then show ?case
    by (auto simp: entry_of_manifest_def split: sum.splits dest: entry_of_key_Inr)
qed

lemma set_insert_by: "set (insert_by cmp x ys) = insert x (set ys)"
  by (induction ys) auto

lemma mset_insert_by: "mset (insert_by cmp x ys) = add_mset x (mset ys)"
  by (induction ys) auto

lemma mset_js_sort: "mset (js_sort cmp xs) = mset xs"
  by (induction xs) (auto simp: js_sort_def mset_insert_by)

lemma set_js_sort: "set (js_sort cmp xs) = set xs"
  using mset_js_sort [of cmp xs] by (metis set_mset_mset)

lemma insert_by_sorted:
  assumes "consistent cmp" and "sorted_wrt (\<lambda>a b. cmp a b \<le> 0) ys"
  shows "sorted_wrt (\<lambda>a b. cmp a b \<le> 0) (insert_by cmp x ys)"
  using assms(2)
proof (induction ys)
  case Nil
  show ?case by simp
next
  case (Cons y ys)
  from assms(1) have flip: "\<And>a b. \<not> cmp a b \<le> 0 \<Longrightarrow> cmp b a \<le> 0"
    unfolding consistent_def by (metis not_le order_less_imp_le)
  from assms(1) have trans: "\<And>a b c. cmp a b \<le> 0 \<Longrightarrow> cmp b c \<le> 0 \<Longrightarrow> cmp a c \<le> 0"
    unfolding consistent_def by blast
  show ?case
  proof (cases "cmp x y \<le> 0")
    case True
    with Cons.prems show ?thesis by (auto intro: trans)
  next
    case False
    with Cons show ?thesis by (auto simp: set_insert_by dest: flip)
  qed
qed

lemma js_sort_sorted:
  "consistent cmp \<Longrightarrow> sorted_wrt (\<lambda>a b. cmp a b \<le> 0) (js_sort cmp xs)"
  by (induction xs) (auto simp: js_sort_def intro: insert_by_sorted)

lemma consistent_on_field:
  "consistent cmp \<Longrightarrow> consistent (\<lambda>a b. cmp (f a) (f b))"
  unfolding consistent_def by blast

lemma photoOrder_showLoading [simp]: "photoOrder (showLoading b p) = photoOrder p"
  by (simp add: showLoading_def)

lemma errorState_showLoading [simp]: "errorState (showLoading b p) = errorState p"
  by (simp add: showLoading_def)

lemma errorState_showError [simp]: "errorState (showError msg detail p)"
  by (simp add: showError_def Let_def)

lemma hidden_showError [simp]:
  "\<not> galleryContainer (showError msg detail p)"
  "\<not> downloadSection (showError msg detail p)"
  "\<not> loadingState (showError msg detail p)"
  by (simp_all add: showError_def Let_def)

lemma loadPhotos_custom:
  assumes "truthy (loadCustomOrder fetch p)"
    and "entries_of_custom (loadCustomOrder fetch p) = Inr es"
  shows "fst (loadPhotos fetch cmp p) = None"
    and "photoOrder (snd (loadPhotos fetch cmp p)) = map (\<lambda>entry. JStr (s3Key entry)) es"
    and "errorState (snd (loadPhotos fetch cmp p)) = errorState p"
  using assms by (simp_all add: loadPhotos_def Let_def)

lemma loadPhotos_manifest:
  assumes "\<not> truthy (loadCustomOrder fetch p)"
    and "entries_of_manifest fetch cmp p = Inr es"
  shows "fst (loadPhotos fetch cmp p) = None"
    and "photoOrder (snd (loadPhotos fetch cmp p)) = map (\<lambda>entry. JStr (s3Key entry)) es"
    and "errorState (snd (loadPhotos fetch cmp p)) = errorState p"
  using assms by (simp_all add: loadPhotos_def Let_def)

lemma loadPhotos_manifest_throw:
  assumes "\<not> truthy (loadCustomOrder fetch p)"
    and "entries_of_manifest fetch cmp p = Inl e"
  shows "loadPhotos fetch cmp p = (Some e, showLoading True p)"
  using assms by (simp add: loadPhotos_def Let_def)

lemma loadPhotos_manifest_None:
  assumes "\<not> truthy (loadCustomOrder fetch p)"
    and "fst (loadPhotos fetch cmp p) = None"
  shows "\<exists>es. entries_of_manifest fetch cmp p = Inr es
     \<and> photoOrder (snd (loadPhotos fetch cmp p)) = map (\<lambda>entry. JStr (s3Key entry)) es"
  using assms by (auto simp add: loadPhotos_def Let_def split: sum.splits)

lemma entries_of_manifest_sorted:
  assumes "consistent cmp" and "entries_of_manifest fetch cmp p = Inr es"
  shows "sorted_wrt (\<lambda>a b. cmp (basename (s3Key a)) (basename (s3Key b)) \<le> 0) es"
proof -
  let ?c = "\<lambda>a b. cmp (filename a) (filename b)"
  from assms(2) obtain kept es0 where
    m: "map_throw entry_of_manifest kept = Inr es0" and es: "es = js_sort ?c es0"
    by (auto simp: entries_of_manifest_def split: fetch_result.splits if_splits sum.splits jsval.splits)
  from m have f: "\<forall>e \<in> set es. filename e = basename (s3Key e)"
    using map_throw_filename [OF m] by (simp add: es set_js_sort)
  have "consistent ?c" using assms(1) by (rule consistent_on_field)
  then have "sorted_wrt (\<lambda>a b. ?c a b \<le> 0) es"
    unfolding es by (rule js_sort_sorted)
  then show ?thesis
    using f by (auto elim!: sorted_wrt_mono_rel [rotated])
qed


lemma consistent_codeunit_compare: "consistent codeunit_compare"
  by (auto simp: consistent_def codeunit_compare_def)

lemma serve_custom [simp]: "serve u c m (customOrderUrl u) = c"
  by (simp add: serve_def)

lemma serve_manifest [simp]: "serve u c m (manifestUrl u) = m"
  by (simp add: serve_def customOrderUrl_def manifestUrl_def)

lemmas run_defs = loadPhotos_def loadCustomOrder_def entries_of_manifest_def uid_text_def
  page0_def ok_json_def not_found_def obj_get_def manifest_keep_def entry_of_manifest_def
  js_sort_def codeunit_compare_def endsWith_def basename_def showLoading_def
  extractOriginalFilename_def is_marker_def startsWith_def skip_x_def sample_manifest_def
  onDOMContentLoaded_def showError_def

lemma uid_text_Some [simp]: "uid_text (p\<lparr>uid := Some u\<rparr>) = u"
  by (simp add: uid_text_def)

lemma loadCustomOrder_failed:
  "fetch_failed (fetch (customOrderUrl (uid_text p))) \<Longrightarrow> loadCustomOrder fetch p = JNull"
  by (cases "fetch (customOrderUrl (uid_text p))") (simp_all add: loadCustomOrder_def)

lemma entries_of_manifest_failed:
  "fetch_failed (fetch (manifestUrl (uid_text p))) \<Longrightarrow> \<exists>e. entries_of_manifest fetch cmp p = Inl e"
  by (cases "fetch (manifestUrl (uid_text p))") (simp_all add: entries_of_manifest_def)

lemma onDOMContentLoaded_run:
  "u \<noteq> [] \<Longrightarrow> onDOMContentLoaded fetch cmp (Some u) p =
     (case loadPhotos fetch cmp (p\<lparr>uid := Some u\<rparr>) of
        (Some error, p1) \<Rightarrow>
           showError ''Failed to load photos. Please try again or contact support.''
             (message error) p1
      | (None, p1) \<Rightarrow> p1)"
  by (simp add: onDOMContentLoaded_def)

lemma errorDetail_showLoading [simp]: "errorDetail (showLoading b p) = errorDetail p"
  by (simp add: showLoading_def)

lemma loadPhotos_manifest_detail:
  assumes "\<not> truthy (loadCustomOrder fetch p)"
    and "entries_of_manifest fetch cmp p = Inr es"
  shows "errorDetail (snd (loadPhotos fetch cmp p)) = errorDetail p"
  using assms by (simp add: loadPhotos_def Let_def)

section \<open>Properties of the order updates\<close>

lemma indexOf_from_ge:
  "indexOf_from xs v i > -1 \<Longrightarrow> 0 \<le> i \<Longrightarrow> i \<le> indexOf_from xs v i"
proof (induction xs arbitrary: i)
  case Nil
  then show ?case by simp
next
  case (Cons x xs)
  show ?case
  proof (cases "x = v")
    case True
    then show ?thesis by simp
  next
    case False
    with Cons.prems have "indexOf_from xs v (i + 1) > -1" by simp
    with Cons.IH [of "i + 1"] Cons.prems have "i + 1 \<le> indexOf_from xs v (i + 1)" by simp
    with False show ?thesis by simp
  qed
qed

lemma indexOf_from_absent:
  "v \<notin> set xs \<Longrightarrow> indexOf_from xs v i = -1"
  by (induction xs arbitrary: i) auto

lemma indexOf_from_present:
  "v \<in> set xs \<Longrightarrow> 0 \<le> i \<Longrightarrow> indexOf_from xs v i > -1"
  by (induction xs arbitrary: i) auto

lemma remove_at_index:
  "0 \<le> i \<Longrightarrow>
   (if indexOf_from xs v i > -1
    then take (nat (indexOf_from xs v i - i)) xs @ drop (nat (indexOf_from xs v i - i) + 1) xs
    else xs) = remove1 v xs"
proof (induction xs arbitrary: i)
  case Nil
  show ?case by simp
next
  case (Cons x xs)
  show ?case
  proof (cases "x = v")
    case True
    with Cons.prems show ?thesis by simp
  next
    case False
    show ?thesis
    proof (cases "indexOf_from xs v (i + 1) > -1")
      case True
      with Cons.prems have ge: "i + 1 \<le> indexOf_from xs v (i + 1)"
        by (simp add: indexOf_from_ge)
      then have n: "nat (indexOf_from xs v (i + 1) - i) = Suc (nat (indexOf_from xs v (i + 1) - (i + 1)))"
        by simp
      from Cons.IH [of "i + 1"] Cons.prems True
      have "take (nat (indexOf_from xs v (i + 1) - (i + 1))) xs
            @ drop (nat (indexOf_from xs v (i + 1) - (i + 1)) + 1) xs = remove1 v xs"
        by simp
      with False True n show ?thesis by simp
    next
      case False
      with Cons.IH [of "i + 1"] Cons.prems have "remove1 v xs = xs" by simp
      with False \<open>x \<noteq> v\<close> show ?thesis by simp
    qed
  qed
qed

lemma splice_remove_one:
  "0 \<le> i \<Longrightarrow> snd (splice i 1 [] xs) = take (nat i) xs @ drop (nat i + 1) xs"
  by (simp add: splice_def splice_start_def min_def Let_def)

lemma remove_from_order_remove1:
  "photoOrder (remove_from_order key p) = remove1 (JStr key) (photoOrder p)"
proof -
  let ?i = "indexOf (photoOrder p) (JStr key)"
  show ?thesis
  proof (cases "?i > -1")
    case True
    then have "0 \<le> ?i" by simp
    then have "snd (splice ?i 1 [] (photoOrder p))
               = take (nat ?i) (photoOrder p) @ drop (nat ?i + 1) (photoOrder p)"
      by (rule splice_remove_one)
    with True remove_at_index [of 0 "photoOrder p" "JStr key"] show ?thesis
      by (simp add: remove_from_order_def indexOf_def Let_def)
  next
    case False
    with remove_at_index [of 0 "photoOrder p" "JStr key"] show ?thesis
      by (simp add: remove_from_order_def indexOf_def Let_def)
  qed
qed

lemma remove1_first_occurrence:
  "v \<in> set xs \<Longrightarrow> \<exists>pre post. xs = pre @ v # post \<and> v \<notin> set pre \<and> remove1 v xs = pre @ post"
proof -
  assume "v \<in> set xs"
  then obtain pre post where s: "xs = pre @ v # post" "v \<notin> set pre"
    by (auto dest: split_list_first)
  then have "remove1 v xs = pre @ post" by (simp add: remove1_append)
  with s show ?thesis by blast
qed

section \<open>Properties of the analytics aggregation\<close>

lemma iso_year_ex: "iso_year (JStr ''1930-03-14'') = Some 1930" "iso_year (JStr ''2020-11-02'') = Some 2020"
   "iso_year (JStr ''2020-01-05'') = Some 2020"
  by (simp_all add: iso_year_def is_digit_def)

lemma increment_keys: "map fst (increment b c) = map fst c"
  by (induction b c rule: increment.induct) auto

lemma increment_sum:
  "b \<in> set (map fst c) \<Longrightarrow> sum_list (map snd (increment b c)) = sum_list (map snd c) + 1"
  by (induction b c rule: increment.induct) auto

lemma photo_bucket_in_order: "photo_bucket k = Some b \<Longrightarrow> b \<in> set bucketOrder"
  by (auto simp: photo_bucket_def bucketOrder_def map_of_eq_None_iff
      split: option.splits if_splits)

lemma count_photos_strings:
  "map fst c = bucketOrder \<Longrightarrow>
   \<exists>c'. count_photos (map JStr keys) c = Inr c' \<and> map fst c' = bucketOrder
      \<and> sum_list (map snd c') = sum_list (map snd c) + length (filter (\<lambda>k. photo_bucket k \<noteq> None) keys)"
proof (induction keys arbitrary: c)
  case Nil
  then show ?case by simp
next
  case (Cons k keys)
  show ?case
  proof (cases "photo_bucket k")
    case None
    with Cons show ?thesis by simp
  next
    case (Some b)
    then have "b \<in> set (map fst c)"
      using Cons.prems photo_bucket_in_order by simp
    then have s: "sum_list (map snd (increment b c)) = sum_list (map snd c) + 1"
      by (rule increment_sum)
    have "map fst (increment b c) = bucketOrder"
      using Cons.prems by (simp add: increment_keys)
    from Cons.IH [OF this] s Some show ?thesis by auto
  qed
qed

lemma distinct_bucketOrder: "distinct bucketOrder"
  by (simp add: bucketOrder_def AGE_BUCKETS_def)

lemma no_counts_iff:
  assumes "distinct (map fst c)"
  shows "(filter (\<lambda>b. 0 < count_of c b) (map fst c) = []) = (sum_list (map snd c) = 0)"
proof -
  have "count_of c (fst kv) = snd kv" if "kv \<in> set c" for kv
    using assms that by (cases kv) (simp add: count_of_def)
  then have "(\<forall>b \<in> set (map fst c). count_of c b = 0) = (\<forall>kv \<in> set c. snd kv = 0)"
    by auto
  then show ?thesis
    by (auto simp: filter_empty_conv)
qed

lemma parseFilenames_strings:
  "\<exists>filenameStats. parseFilenames (map JStr keys) = Inr filenameStats
     \<and> ((\<forall>k \<in> set keys. photo_bucket k = None)
           \<and> filenameStats = [(''ageRangeLabel'', JNull), (''bucketCounts'', JNull)]
         \<or> (\<exists>k \<in> set keys. photo_bucket k \<noteq> None)
           \<and> (\<exists>counts youngest oldest label.
                 filenameStats = [(''bucketCounts'', counts), (''youngestBucket'', youngest),
                                  (''oldestBucket'', oldest), (''ageRangeLabel'', JStr label)]
                 \<and> label \<noteq> []))"
proof -
  let ?init = "map (\<lambda>bucket. (bucket, 0::nat)) bucketOrder"
  have k: "map fst ?init = bucketOrder" by (simp add: comp_def)
  have z: "sum_list (map snd ?init) = 0" by (simp add: comp_def)
  from count_photos_strings [OF k, of keys] z obtain c where
    c: "count_photos (map JStr keys) ?init = Inr c" "map fst c = bucketOrder"
       "sum_list (map snd c) = length (filter (\<lambda>k. photo_bucket k \<noteq> None) keys)"
    by auto
  have "distinct (map fst c)" using c(2) distinct_bucketOrder by simp
  from no_counts_iff [OF this] c(2,3)
  have e: "(filter (\<lambda>b. 0 < count_of c b) bucketOrder = []) = (\<forall>k \<in> set keys. photo_bucket k = None)"
    by (simp add: filter_empty_conv)
  show ?thesis
  proof (cases "\<forall>k \<in> set keys. photo_bucket k = None")
    case True
    with c(1) e show ?thesis by (simp add: parseFilenames_def Let_def)
  next
    case False
    with e have "filter (\<lambda>b. 0 < count_of c b) bucketOrder \<noteq> []" by simp
    with c(1) False show ?thesis by (simp add: parseFilenames_def Let_def)
  qed
qed

lemma fetchPresentationSettings_failed:
  "fetch_failed (fetch (presentationSettingsUrl u)) \<Longrightarrow> fetchPresentationSettings fetch u = []"
  by (cases "fetch (presentationSettingsUrl u)") (simp_all add: fetchPresentationSettings_def)

lemma fetchProcessingStats_failed:
  "fetch_failed (fetch (processingStatsUrl u)) \<Longrightarrow> fetchProcessingStats fetch u = []"
  by (cases "fetch (processingStatsUrl u)") (simp_all add: fetchProcessingStats_def)

lemma spread_empty: "spread base [] = base"
  by (simp add: spread_def)

section \<open>Claims about the filename decoder\<close>

text \<open>
  C2. The claim: for every storage key whose basename has no underscore-separated token
  that starts and ends with a pipe, \<open>extractOriginalFilename\<close> returns the basename
  unchanged. The code checks for the \<open>x\<close> token at \<open>parts[startIndex]\<close> also when no
  marker was found and \<open>startIndex\<close> is still \<open>0\<close>: the key \<open>x_photo.jpg\<close> has no marker
  token, and the function drops its leading \<open>x\<close> token and returns \<open>photo.jpg\<close>.
\<close>

theorem extract_unmarked_x_dropped:
  "filter is_marker (js_split CHR ''_'' (basename ''x_photo.jpg'')) = []
   \<and> basename ''x_photo.jpg'' = ''x_photo.jpg''
   \<and> extractOriginalFilename ''x_photo.jpg'' = ''photo.jpg''"
  by (simp add: extractOriginalFilename_def basename_def skip_x_def is_marker_def
      startsWith_def endsWith_def)

text \<open>
  C4. For every key whose basename is \<open>01-05(003)_|EX|_x_photo.jpg\<close>,
  \<open>extractOriginalFilename\<close> returns exactly \<open>photo.jpg\<close>: the marker token \<open>|EX|\<close> is
  found, the \<open>x\<close> token after it is skipped, and the rest is returned.
\<close>

theorem extract_example:
  "basename key = ''01-05(003)_|EX|_x_photo.jpg''
   \<Longrightarrow> extractOriginalFilename key = ''photo.jpg''"
  by (simp add: extractOriginalFilename_def skip_x_def is_marker_def
      startsWith_def endsWith_def)

theorem extract_example_witness:
  "basename ''enhanced/u1/renamed/01-05(003)_|EX|_x_photo.jpg'' = ''01-05(003)_|EX|_x_photo.jpg''
   \<and> extractOriginalFilename ''enhanced/u1/renamed/01-05(003)_|EX|_x_photo.jpg'' = ''photo.jpg''"
proof -
  have b: "basename ''enhanced/u1/renamed/01-05(003)_|EX|_x_photo.jpg''
           = ''01-05(003)_|EX|_x_photo.jpg''"
    by (simp add: basename_def)
  from b extract_example [OF b] show ?thesis by simp
qed

section \<open>Claims about the order resolver\<close>

text \<open>
  C1. Whenever \<open>loadCustomOrder\<close> returns an array of string keys, \<open>loadPhotos\<close>
  completes without throwing and leaves \<open>photoOrder\<close> equal to that array, element for
  element and in the same sequence, whatever the manifest holds and whatever order
  \<open>localeCompare\<close> would give: the override branch never sorts.
\<close>

theorem custom_order_verbatim:
  assumes "loadCustomOrder fetch p = JArr (map JStr keys)"
  shows "fst (loadPhotos fetch localeCompare p) = None
     \<and> photoOrder (snd (loadPhotos fetch localeCompare p)) = map JStr keys"
proof -
  have t: "truthy (loadCustomOrder fetch p)" by (simp add: assms)
  have e: "entries_of_custom (loadCustomOrder fetch p) = Inr (map (\<lambda>k. \<lparr>s3Key = k, filename = basename k, originalFilename = extractOriginalFilename k\<rparr>) keys)"
    by (simp add: assms entries_of_custom_def map_throw_all_str)
  show ?thesis
    using loadPhotos_custom(1,2) [OF t e] by (simp add: comp_def)
qed

theorem custom_order_verbatim_witness:
  "loadCustomOrder
     (serve ''u1'' (ok_json (JObj [(''order'', JArr (map JStr [''r/06-10(001)_|EX|_b.jpg'', ''r/01-05(003)_|EX|_x_a.jpg'']))]))
        (ok_json (JArr [JObj [(''final_key'', JStr ''r/01-05(003)_|EX|_x_a.jpg'')],
                        JObj [(''final_key'', JStr ''r/06-10(001)_|EX|_b.jpg'')]])))
     (page0\<lparr>uid := Some ''u1''\<rparr>)
   = JArr (map JStr [''r/06-10(001)_|EX|_b.jpg'', ''r/01-05(003)_|EX|_x_a.jpg''])
   \<and> photoOrder (snd (loadPhotos
     (serve ''u1'' (ok_json (JObj [(''order'', JArr (map JStr [''r/06-10(001)_|EX|_b.jpg'', ''r/01-05(003)_|EX|_x_a.jpg'']))]))
        (ok_json (JArr [JObj [(''final_key'', JStr ''r/01-05(003)_|EX|_x_a.jpg'')],
                        JObj [(''final_key'', JStr ''r/06-10(001)_|EX|_b.jpg'')]])))
     codeunit_compare (page0\<lparr>uid := Some ''u1''\<rparr>)))
   = [JStr ''r/06-10(001)_|EX|_b.jpg'', JStr ''r/01-05(003)_|EX|_x_a.jpg'']"
proof -
  let ?f = "serve ''u1'' (ok_json (JObj [(''order'', JArr (map JStr [''r/06-10(001)_|EX|_b.jpg'', ''r/01-05(003)_|EX|_x_a.jpg'']))]))
        (ok_json (JArr [JObj [(''final_key'', JStr ''r/01-05(003)_|EX|_x_a.jpg'')],
                        JObj [(''final_key'', JStr ''r/06-10(001)_|EX|_b.jpg'')]]))"
  have h: "loadCustomOrder ?f (page0\<lparr>uid := Some ''u1''\<rparr>)
           = JArr (map JStr [''r/06-10(001)_|EX|_b.jpg'', ''r/01-05(003)_|EX|_x_a.jpg''])"
    by (simp add: loadCustomOrder_def uid_text_def page0_def ok_json_def obj_get_def)
  from h custom_order_verbatim [OF h, of codeunit_compare] show ?thesis by simp
qed

text \<open>
  C3. When \<open>loadCustomOrder\<close> returns nothing truthy and \<open>loadPhotos\<close> completes, the
  stored order is a list of string keys taken from the manifest in which every entry's
  filename (the basename of its key) is ordered before or equal to the filename of the
  entry that follows it. The comparison is the one the code sorts with,
  \<open>localeCompare\<close>, taken as any consistent comparison function.
\<close>

theorem manifest_order_sorted:
  assumes "consistent localeCompare"
    and "\<not> truthy (loadCustomOrder fetch p)"
    and "fst (loadPhotos fetch localeCompare p) = None"
  shows "\<exists>keys. photoOrder (snd (loadPhotos fetch localeCompare p)) = map JStr keys
     \<and> (\<forall>i. Suc i < length keys \<longrightarrow>
           localeCompare (basename (keys ! i)) (basename (keys ! Suc i)) \<le> 0)"
proof -
  from loadPhotos_manifest_None [OF assms(2,3)] obtain es where
    es: "entries_of_manifest fetch localeCompare p = Inr es"
    and po: "photoOrder (snd (loadPhotos fetch localeCompare p)) = map (\<lambda>entry. JStr (s3Key entry)) es"
    by blast
  have srt: "sorted_wrt (\<lambda>a b. localeCompare (basename (s3Key a)) (basename (s3Key b)) \<le> 0) es"
    using assms(1) es by (rule entries_of_manifest_sorted)
  have "\<forall>i. Suc i < length (map s3Key es) \<longrightarrow>
           localeCompare (basename (map s3Key es ! i)) (basename (map s3Key es ! Suc i)) \<le> 0"
    using sorted_wrt_nth_less [OF srt] by simp
  moreover have "photoOrder (snd (loadPhotos fetch localeCompare p)) = map JStr (map s3Key es)"
    by (simp add: po comp_def)
  ultimately show ?thesis by blast
qed

theorem manifest_order_sorted_witness:
  "consistent codeunit_compare
   \<and> \<not> truthy (loadCustomOrder (serve ''u1'' not_found (ok_json sample_manifest))
                  (page0\<lparr>uid := Some ''u1''\<rparr>))
   \<and> fst (loadPhotos (serve ''u1'' not_found (ok_json sample_manifest)) codeunit_compare
            (page0\<lparr>uid := Some ''u1''\<rparr>)) = None
   \<and> photoOrder (snd (loadPhotos (serve ''u1'' not_found (ok_json sample_manifest))
                         codeunit_compare (page0\<lparr>uid := Some ''u1''\<rparr>)))
       = [JStr ''r/01-05(003)_|EX|_x_a.jpg'', JStr ''r/06-10(001)_|EX|_b.jpg'']
   \<and> (\<exists>keys. photoOrder (snd (loadPhotos (serve ''u1'' not_found (ok_json sample_manifest))
                         codeunit_compare (page0\<lparr>uid := Some ''u1''\<rparr>))) = map JStr keys
        \<and> (\<forall>i. Suc i < length keys \<longrightarrow>
              codeunit_compare (basename (keys ! i)) (basename (keys ! Suc i)) \<le> 0))"
proof -
  let ?f = "serve ''u1'' not_found (ok_json sample_manifest)"
  let ?p = "page0\<lparr>uid := Some ''u1''\<rparr>"
  have h1: "consistent codeunit_compare" by (rule consistent_codeunit_compare)
  have h2: "\<not> truthy (loadCustomOrder ?f ?p)" by (simp add: run_defs)
  have r: "loadPhotos ?f codeunit_compare ?p
           = (None, ?p\<lparr>photoOrder := [JStr ''r/01-05(003)_|EX|_x_a.jpg'', JStr ''r/06-10(001)_|EX|_b.jpg''],
                        photoCount := 2, loadingState := False, galleryContainer := True,
                        downloadSection := True\<rparr>)"
    by (simp add: run_defs)
  have h3: "fst (loadPhotos ?f codeunit_compare ?p) = None" by (simp add: r)
  have h4: "photoOrder (snd (loadPhotos ?f codeunit_compare ?p))
            = [JStr ''r/01-05(003)_|EX|_x_a.jpg'', JStr ''r/06-10(001)_|EX|_b.jpg'']"
    by (simp add: r)
  from manifest_order_sorted [OF h1 h2 h3] h1 h2 h3 h4 show ?thesis by blast
qed

text \<open>
  C5. The two tiers of the order resolver, for a page loaded with a non-empty \<open>uid\<close>.
  A manifest fetch that fails (it rejects or is not ok), reached because no override was
  found, makes \<open>loadPhotos\<close> throw, and the page-load handler then shows the error state
  in place of the loading, gallery and download blocks.
  An override fetch that fails makes \<open>loadCustomOrder\<close> return \<open>null\<close>; \<open>loadPhotos\<close>
  then takes the manifest branch, and when that branch yields its entries the handler
  stores their keys and leaves the error state and its detail text as they were.
\<close>

theorem two_tier_error_handling:
  assumes "u \<noteq> []"
  shows "(fetch_failed (fetch (manifestUrl u)) \<and> \<not> truthy (loadCustomOrder fetch (p\<lparr>uid := Some u\<rparr>))
            \<longrightarrow> fst (loadPhotos fetch cmp (p\<lparr>uid := Some u\<rparr>)) \<noteq> None
                \<and> errorState (onDOMContentLoaded fetch cmp (Some u) p)
                \<and> \<not> galleryContainer (onDOMContentLoaded fetch cmp (Some u) p)
                \<and> \<not> downloadSection (onDOMContentLoaded fetch cmp (Some u) p)
                \<and> \<not> loadingState (onDOMContentLoaded fetch cmp (Some u) p))
       \<and> (fetch_failed (fetch (customOrderUrl u))
            \<longrightarrow> loadCustomOrder fetch (p\<lparr>uid := Some u\<rparr>) = JNull)
       \<and> (fetch_failed (fetch (customOrderUrl u))
            \<and> entries_of_manifest fetch cmp (p\<lparr>uid := Some u\<rparr>) = Inr es
            \<longrightarrow> fst (loadPhotos fetch cmp (p\<lparr>uid := Some u\<rparr>)) = None
                \<and> photoOrder (onDOMContentLoaded fetch cmp (Some u) p)
                    = map (\<lambda>entry. JStr (s3Key entry)) es
                \<and> errorState (onDOMContentLoaded fetch cmp (Some u) p) = errorState p
                \<and> errorDetail (onDOMContentLoaded fetch cmp (Some u) p) = errorDetail p)"
proof -
  let ?p = "p\<lparr>uid := Some u\<rparr>"
  have manifest_tier:
    "fst (loadPhotos fetch cmp ?p) \<noteq> None \<and> errorState (onDOMContentLoaded fetch cmp (Some u) p)
     \<and> \<not> galleryContainer (onDOMContentLoaded fetch cmp (Some u) p)
     \<and> \<not> downloadSection (onDOMContentLoaded fetch cmp (Some u) p)
     \<and> \<not> loadingState (onDOMContentLoaded fetch cmp (Some u) p)"
    if a: "fetch_failed (fetch (manifestUrl u)) \<and> \<not> truthy (loadCustomOrder fetch ?p)"
  proof -
    from a obtain e where "entries_of_manifest fetch cmp ?p = Inl e"
      using entries_of_manifest_failed [of fetch ?p cmp] by auto
    with a have "loadPhotos fetch cmp ?p = (Some e, showLoading True ?p)"
      by (simp add: loadPhotos_manifest_throw)
    with assms show ?thesis
      by (simp add: onDOMContentLoaded_run)
  qed
  have override_null: "loadCustomOrder fetch ?p = JNull"
    if "fetch_failed (fetch (customOrderUrl u))"
    using that by (simp add: loadCustomOrder_failed)
  have override_tier:
    "fst (loadPhotos fetch cmp ?p) = None
     \<and> photoOrder (onDOMContentLoaded fetch cmp (Some u) p) = map (\<lambda>entry. JStr (s3Key entry)) es
     \<and> errorState (onDOMContentLoaded fetch cmp (Some u) p) = errorState p
     \<and> errorDetail (onDOMContentLoaded fetch cmp (Some u) p) = errorDetail p"
    if a: "fetch_failed (fetch (customOrderUrl u))
           \<and> entries_of_manifest fetch cmp ?p = Inr es"
  proof -
    from a have n: "\<not> truthy (loadCustomOrder fetch ?p)"
      by (simp add: loadCustomOrder_failed)
    from a have m: "entries_of_manifest fetch cmp ?p = Inr es" by simp
    have f: "fst (loadPhotos fetch cmp ?p) = None"
      using n m by (rule loadPhotos_manifest(1))
    then have o: "onDOMContentLoaded fetch cmp (Some u) p = snd (loadPhotos fetch cmp ?p)"
      using assms by (cases "loadPhotos fetch cmp ?p") (simp add: onDOMContentLoaded_run)
    show ?thesis
      unfolding o
      using f loadPhotos_manifest(2,3) [OF n m] loadPhotos_manifest_detail [OF n m]
      by simp
  qed
  from manifest_tier override_null override_tier show ?thesis by blast
qed

theorem two_tier_error_handling_witness:
  "''u1'' \<noteq> []
   \<and> fetch_failed (serve ''u1'' not_found not_found (manifestUrl ''u1''))
   \<and> \<not> truthy (loadCustomOrder (serve ''u1'' not_found not_found) (page0\<lparr>uid := Some ''u1''\<rparr>))
   \<and> fst (loadPhotos (serve ''u1'' not_found not_found) codeunit_compare (page0\<lparr>uid := Some ''u1''\<rparr>)) \<noteq> None
   \<and> errorState (onDOMContentLoaded (serve ''u1'' not_found not_found) codeunit_compare (Some ''u1'') page0)
   \<and> fetch_failed (serve ''u1'' (Rejected (TypeError ''Failed to fetch'')) (ok_json sample_manifest)
                     (customOrderUrl ''u1''))
   \<and> loadCustomOrder (serve ''u1'' (Rejected (TypeError ''Failed to fetch'')) (ok_json sample_manifest))
        (page0\<lparr>uid := Some ''u1''\<rparr>) = JNull
   \<and> photoOrder (onDOMContentLoaded
        (serve ''u1'' (Rejected (TypeError ''Failed to fetch'')) (ok_json sample_manifest))
        codeunit_compare (Some ''u1'') page0)
       = [JStr ''r/01-05(003)_|EX|_x_a.jpg'', JStr ''r/06-10(001)_|EX|_b.jpg'']
   \<and> \<not> errorState (onDOMContentLoaded
        (serve ''u1'' (Rejected (TypeError ''Failed to fetch'')) (ok_json sample_manifest))
        codeunit_compare (Some ''u1'') page0)"
proof -
  let ?bad = "serve ''u1'' not_found not_found"
  let ?good = "serve ''u1'' (Rejected (TypeError ''Failed to fetch'')) (ok_json sample_manifest)"
  let ?p = "page0\<lparr>uid := Some ''u1''\<rparr>"
  let ?es = "[\<lparr>s3Key = ''r/01-05(003)_|EX|_x_a.jpg'', filename = ''01-05(003)_|EX|_x_a.jpg'',
               originalFilename = ''a.jpg''\<rparr>,
              \<lparr>s3Key = ''r/06-10(001)_|EX|_b.jpg'', filename = ''06-10(001)_|EX|_b.jpg'',
               originalFilename = ''b.jpg''\<rparr>]"
  have u: "''u1'' \<noteq> []" by simp
  have b1: "fetch_failed (?bad (manifestUrl ''u1''))" by (simp add: not_found_def)
  have b2: "\<not> truthy (loadCustomOrder ?bad ?p)" by (simp add: run_defs)
  have g1: "fetch_failed (?good (customOrderUrl ''u1''))" by simp
  have g2: "entries_of_manifest ?good codeunit_compare ?p = Inr ?es"
    by (simp add: run_defs)
  have e0: "\<not> errorState page0" by (simp add: page0_def)
  from two_tier_error_handling [OF u, of ?bad page0 codeunit_compare ?es]
       two_tier_error_handling [OF u, of ?good page0 codeunit_compare ?es]
       u b1 b2 g1 g2 e0
  show ?thesis by simp
qed

section \<open>Claims about reorder, download and delete\<close>

text \<open>
  C9. The drag-end handler with \<open>oldIndex = 2\<close> and \<open>newIndex = 0\<close> turns the order
  \<open>[a, b, c, d, e]\<close> into \<open>[c, a, b, d, e]\<close>; the body \<open>downloadAll\<close> sends carries the
  current \<open>photoOrder\<close> as its \<open>photo_order\<close> field, so after that drag it carries exactly
  \<open>[c, a, b, d, e]\<close>.
\<close>

theorem reorder_then_download:
  "photoOrder (onEnd 2 0 (p\<lparr>photoOrder := [a, b, c, d, e]\<rparr>)) = [c, a, b, d, e]
   \<and> get_prop (downloadAll_body (onEnd 2 0 (p\<lparr>photoOrder := [a, b, c, d, e]\<rparr>))) ''photo_order''
       = Inr (JArr [c, a, b, d, e])
   \<and> get_prop (downloadAll_body q) ''photo_order'' = Inr (JArr (photoOrder q))"
  by (simp add: onEnd_def splice_def splice_start_def downloadAll_body_def obj_get_def)

text \<open>
  C10. On both removal paths of \<open>deletePhoto\<close> (the request resolved to a response,
  or it rejected with a message that mentions \<open>CORS\<close> or \<open>NetworkError\<close>): when the key
  occurs in \<open>photoOrder\<close>, exactly its first occurrence is removed, the elements before
  and after it keep their order, and the length drops by one; when the key does not
  occur, \<open>photoOrder\<close> is unchanged.
\<close>

theorem delete_updates_order:
  assumes "case outcome of
             Resolved r \<Rightarrow> True
           | Rejected error \<Rightarrow> js_includes (message error) ''CORS''
                               \<or> js_includes (message error) ''NetworkError''"
  shows "(JStr key \<in> set (photoOrder p) \<longrightarrow>
            (\<exists>pre post. photoOrder p = pre @ JStr key # post \<and> JStr key \<notin> set pre
               \<and> photoOrder (deletePhoto key True outcome p) = pre @ post)
            \<and> length (photoOrder (deletePhoto key True outcome p)) + 1 = length (photoOrder p))
       \<and> (JStr key \<notin> set (photoOrder p) \<longrightarrow>
            photoOrder (deletePhoto key True outcome p) = photoOrder p)"
proof -
  have d: "photoOrder (deletePhoto key True outcome p) = remove1 (JStr key) (photoOrder p)"
    using assms
    by (cases outcome) (simp_all add: deletePhoto_def remove_from_order_remove1)
  have present: "(\<exists>pre post. photoOrder p = pre @ JStr key # post \<and> JStr key \<notin> set pre
               \<and> remove1 (JStr key) (photoOrder p) = pre @ post)
            \<and> length (remove1 (JStr key) (photoOrder p)) + 1 = length (photoOrder p)"
    if "JStr key \<in> set (photoOrder p)"
  proof -
    from that have "0 < length (photoOrder p)" by (cases "photoOrder p") auto
    with that have "length (remove1 (JStr key) (photoOrder p)) + 1 = length (photoOrder p)"
      by (simp add: length_remove1)
    with remove1_first_occurrence [OF that] show ?thesis by blast
  qed
  have absent: "remove1 (JStr key) (photoOrder p) = photoOrder p"
    if "JStr key \<notin> set (photoOrder p)"
    using that by (simp add: remove1_idem)
  from present absent show ?thesis unfolding d by blast
qed

theorem delete_updates_order_witness:
  "js_includes (message (TypeError ''NetworkError when attempting to fetch resource.'')) ''NetworkError''
   \<and> JStr ''r/a.jpg'' \<in> set [JStr ''r/b.jpg'', JStr ''r/a.jpg'', JStr ''r/c.jpg'', JStr ''r/a.jpg'']
   \<and> photoOrder (deletePhoto ''r/a.jpg'' True
        (Rejected (TypeError ''NetworkError when attempting to fetch resource.''))
        (page0\<lparr>photoOrder := [JStr ''r/b.jpg'', JStr ''r/a.jpg'', JStr ''r/c.jpg'', JStr ''r/a.jpg'']\<rparr>))
      = [JStr ''r/b.jpg'', JStr ''r/c.jpg'', JStr ''r/a.jpg'']
   \<and> JStr ''r/z.jpg'' \<notin> set [JStr ''r/b.jpg'', JStr ''r/a.jpg'']
   \<and> photoOrder (deletePhoto ''r/z.jpg'' True not_found
        (page0\<lparr>photoOrder := [JStr ''r/b.jpg'', JStr ''r/a.jpg'']\<rparr>))
      = [JStr ''r/b.jpg'', JStr ''r/a.jpg'']"
proof -
  let ?e = "TypeError ''NetworkError when attempting to fetch resource.''"
  let ?p = "page0\<lparr>photoOrder := [JStr ''r/b.jpg'', JStr ''r/a.jpg'', JStr ''r/c.jpg'', JStr ''r/a.jpg'']\<rparr>"
  let ?q = "page0\<lparr>photoOrder := [JStr ''r/b.jpg'', JStr ''r/a.jpg'']\<rparr>"
  have i: "js_includes (message ?e) ''NetworkError''" by (simp add: startsWith_def)
  then have h1: "case Rejected ?e of Resolved r \<Rightarrow> True
         | Rejected error \<Rightarrow> js_includes (message error) ''CORS'' \<or> js_includes (message error) ''NetworkError''"
    by simp
  have h2: "case not_found of Resolved r \<Rightarrow> True
         | Rejected error \<Rightarrow> js_includes (message error) ''CORS'' \<or> js_includes (message error) ''NetworkError''"
    by (simp add: not_found_def)
  have r1: "photoOrder (deletePhoto ''r/a.jpg'' True (Rejected ?e) ?p)
            = [JStr ''r/b.jpg'', JStr ''r/c.jpg'', JStr ''r/a.jpg'']"
    using i by (simp add: deletePhoto_def remove_from_order_def indexOf_def splice_def splice_start_def)
  from delete_updates_order [OF h1, of "''r/a.jpg''" ?p]
       delete_updates_order [OF h2, of "''r/z.jpg''" ?q] i r1
  show ?thesis by simp
qed

section \<open>Claims about the analytics display\<close>

text \<open>
  C6. \<open>calculateYearsOfMemories\<close> returns the death year minus the birth year when
  both dates are present and the difference is positive, and \<open>null\<close> when a date is missing
  or unreadable, when the years are equal, or when the difference is negative; birth year
  1930 and death year 2020 give 90, and equal years give \<open>null\<close>. The years are the ones
  \<open>getFullYear\<close> reads from the two dates.
\<close>

theorem years_of_memories:
  "(truthy (obj_get stats ''birthdate'') \<and> truthy (obj_get stats ''deathdate'')
      \<and> fullYear (obj_get stats ''birthdate'') = Some birth
      \<and> fullYear (obj_get stats ''deathdate'') = Some death \<and> 0 < death - birth
      \<longrightarrow> calculateYearsOfMemories fullYear stats = JNum (death - birth))
   \<and> (\<not> truthy (obj_get stats ''birthdate'') \<or> \<not> truthy (obj_get stats ''deathdate'')
      \<longrightarrow> calculateYearsOfMemories fullYear stats = JNull)
   \<and> (fullYear (obj_get stats ''birthdate'') = Some birth
      \<and> fullYear (obj_get stats ''deathdate'') = Some death \<and> death - birth \<le> 0
      \<longrightarrow> calculateYearsOfMemories fullYear stats = JNull)
   \<and> (fullYear (obj_get stats ''birthdate'') = None \<or> fullYear (obj_get stats ''deathdate'') = None
      \<longrightarrow> calculateYearsOfMemories fullYear stats = JNull)
   \<and> (truthy (obj_get stats ''birthdate'') \<and> truthy (obj_get stats ''deathdate'')
      \<and> fullYear (obj_get stats ''birthdate'') = Some 1930
      \<and> fullYear (obj_get stats ''deathdate'') = Some 2020
      \<longrightarrow> calculateYearsOfMemories fullYear stats = JNum 90)
   \<and> (fullYear (obj_get stats ''birthdate'') = Some year
      \<and> fullYear (obj_get stats ''deathdate'') = Some year
      \<longrightarrow> calculateYearsOfMemories fullYear stats = JNull)"
  by (auto simp: calculateYearsOfMemories_def Let_def split: option.splits)

theorem years_of_memories_witness:
  "calculateYearsOfMemories iso_year
      [(''birthdate'', JStr ''1930-03-14''), (''deathdate'', JStr ''2020-11-02'')] = JNum 90
   \<and> calculateYearsOfMemories iso_year [(''birthdate'', JStr ''1930-03-14'')] = JNull
   \<and> calculateYearsOfMemories iso_year
      [(''birthdate'', JStr ''2020-01-05''), (''deathdate'', JStr ''2020-11-02'')] = JNull
   \<and> calculateYearsOfMemories iso_year
      [(''birthdate'', JStr ''2020-11-02''), (''deathdate'', JStr ''1930-03-14'')] = JNull
   \<and> calculateYearsOfMemories iso_year
      [(''birthdate'', JStr ''14 March 1930''), (''deathdate'', JStr ''2020-11-02'')] = JNull"
proof -
  note y = iso_year_ex
  have n: "iso_year (JStr ''14 March 1930'') = None"
    by (simp add: iso_year_def is_digit_def)
  show ?thesis
    using years_of_memories [of "[(''birthdate'', JStr ''1930-03-14''), (''deathdate'', JStr ''2020-11-02'')]"
            iso_year 1930 2020 2020]
          years_of_memories [of "[(''birthdate'', JStr ''1930-03-14'')]" iso_year 1930 2020 2020]
          years_of_memories [of "[(''birthdate'', JStr ''2020-01-05''), (''deathdate'', JStr ''2020-11-02'')]"
            iso_year 2020 2020 2020]
          years_of_memories [of "[(''birthdate'', JStr ''2020-11-02''), (''deathdate'', JStr ''1930-03-14'')]"
            iso_year 2020 1930 2020]
          years_of_memories [of "[(''birthdate'', JStr ''14 March 1930''), (''deathdate'', JStr ''2020-11-02'')]"
            iso_year 0 2020 2020]
    by (simp add: obj_get_def y n)
qed

text \<open>
  C7, as amended. When both enrichment fetches fail, the stats record \<open>init\<close> builds
  from string keys holds the photo count, the fields \<open>parseFilenames\<close> derived from the
  filenames, and \<open>yearsOfMemories = null\<close>, with no birth date, death date or face count.
  The age-range label is then present exactly when some key's filename starts with a
  recognised age-bucket token, and \<open>init\<close> inserts nothing exactly when the page has no
  \<open>.photo-count\<close> element or no key's filename starts with such a token: on a page with
  the element, the box is inserted if and only if some key carries a bucket token.
\<close>

theorem init_without_enrichment:
  assumes "fetch_failed (fetch (presentationSettingsUrl u))"
    and "fetch_failed (fetch (processingStatsUrl u))"
  shows "\<exists>filenameStats stats.
           parseFilenames (map JStr keys) = Inr filenameStats
         \<and> init_stats fetch fullYear u (map JStr keys) = Inr stats
         \<and> stats = obj_set ''yearsOfMemories'' JNull
                     (spread [(''photoCount'', JNum (int (length keys)))] filenameStats)
         \<and> obj_get stats ''photoCount'' = JNum (int (length keys))
         \<and> obj_get stats ''yearsOfMemories'' = JNull
         \<and> obj_get stats ''birthdate'' = JUndefined
         \<and> obj_get stats ''deathdate'' = JUndefined
         \<and> obj_get stats ''totalFacesIndexed'' = JUndefined
         \<and> obj_get stats ''ageRangeLabel'' = obj_get filenameStats ''ageRangeLabel''
         \<and> truthy (obj_get stats ''ageRangeLabel'') = (\<exists>k \<in> set keys. photo_bucket k \<noteq> None)
         \<and> (init fetch fullYear u (map JStr keys) photoCountEl = None)
             = (\<not> photoCountEl \<or> (\<forall>k \<in> set keys. photo_bucket k = None))"
proof -
  have empty: "fetchPresentationSettings fetch u = []" "fetchProcessingStats fetch u = []"
    using assms
    by (simp_all add: fetchPresentationSettings_failed fetchProcessingStats_failed)
  from parseFilenames_strings [of keys] obtain fs where
    p: "parseFilenames (map JStr keys) = Inr fs"
    and shape: "(\<forall>k \<in> set keys. photo_bucket k = None)
           \<and> fs = [(''ageRangeLabel'', JNull), (''bucketCounts'', JNull)]
         \<or> (\<exists>k \<in> set keys. photo_bucket k \<noteq> None)
           \<and> (\<exists>counts youngest oldest label.
                 fs = [(''bucketCounts'', counts), (''youngestBucket'', youngest),
                       (''oldestBucket'', oldest), (''ageRangeLabel'', JStr label)]
                 \<and> label \<noteq> [])"
    by blast
  from shape show ?thesis
  proof (elim disjE conjE exE)
    assume "\<forall>k \<in> set keys. photo_bucket k = None"
      and "fs = [(''ageRangeLabel'', JNull), (''bucketCounts'', JNull)]"
    then show ?thesis
      using p empty
      by (simp add: init_def init_stats_def spread_def calculateYearsOfMemories_def
          obj_get_def render_def length_map)
  next
    fix counts youngest oldest label
    assume "\<exists>k \<in> set keys. photo_bucket k \<noteq> None"
      and "fs = [(''bucketCounts'', counts), (''youngestBucket'', youngest),
                 (''oldestBucket'', oldest), (''ageRangeLabel'', JStr label)]"
      and "label \<noteq> []"
    then show ?thesis
      using p empty
      by (simp add: init_def init_stats_def spread_def calculateYearsOfMemories_def
          obj_get_def render_def js_or_def Let_def)
  qed
qed

theorem init_without_enrichment_witness:
  "fetch_failed (offline (presentationSettingsUrl ''u1''))
   \<and> fetch_failed (offline (processingStatsUrl ''u1''))
   \<and> init offline iso_year ''u1'' (map JStr [''r/scan_001.jpg'', ''r/scan_002.jpg'']) True = None
   \<and> photo_bucket ''r/01-05(003)_|EX|_x_a.jpg'' = Some ''01-05''
   \<and> init offline iso_year ''u1'' (map JStr [''r/01-05(003)_|EX|_x_a.jpg'']) False = None
   \<and> init offline iso_year ''u1'' (map JStr [''r/01-05(003)_|EX|_x_a.jpg'']) True \<noteq> None"
proof -
  have f: "fetch_failed (offline (presentationSettingsUrl ''u1''))"
          "fetch_failed (offline (processingStatsUrl ''u1''))"
    by (simp_all add: offline_def)
  have b: "\<forall>k \<in> set [''r/scan_001.jpg'', ''r/scan_002.jpg'']. photo_bucket k = None"
    by (simp add: photo_bucket_def bucket_match_def basename_def is_digit_def)
  have c: "photo_bucket ''r/01-05(003)_|EX|_x_a.jpg'' = Some ''01-05''"
    by (simp add: photo_bucket_def bucket_match_def basename_def is_digit_def AGE_BUCKETS_def)
  have plain:
    "(init offline iso_year ''u1'' (map JStr [''r/scan_001.jpg'', ''r/scan_002.jpg'']) True = None)
     = (\<not> True \<or> (\<forall>k \<in> set [''r/scan_001.jpg'', ''r/scan_002.jpg'']. photo_bucket k = None))"
    using init_without_enrichment [where fetch = offline and u = "''u1''"
         and keys = "[''r/scan_001.jpg'', ''r/scan_002.jpg'']" and fullYear = iso_year
         and photoCountEl = True] f
    by blast
  have no_element:
    "(init offline iso_year ''u1'' (map JStr [''r/01-05(003)_|EX|_x_a.jpg'']) False = None)
     = (\<not> False \<or> (\<forall>k \<in> set [''r/01-05(003)_|EX|_x_a.jpg'']. photo_bucket k = None))"
    using init_without_enrichment [where fetch = offline and u = "''u1''"
         and keys = "[''r/01-05(003)_|EX|_x_a.jpg'']" and fullYear = iso_year
         and photoCountEl = False] f
    by blast
  have element:
    "(init offline iso_year ''u1'' (map JStr [''r/01-05(003)_|EX|_x_a.jpg'']) True = None)
     = (\<not> True \<or> (\<forall>k \<in> set [''r/01-05(003)_|EX|_x_a.jpg'']. photo_bucket k = None))"
    using init_without_enrichment [where fetch = offline and u = "''u1''"
         and keys = "[''r/01-05(003)_|EX|_x_a.jpg'']" and fullYear = iso_year
         and photoCountEl = True] f
    by blast
  from plain no_element element b c f show ?thesis by simp
qed

text \<open>
  C7 as stated (with both enrichment fetches failed the record is all null or empty and
  nothing is inserted) fails for keys that carry age-bucket tokens: the record has an
  age-range label and bucket counts, and \<open>render\<close> inserts the box.
\<close>

theorem init_without_enrichment_counterexample:
  "fetch_failed (offline (presentationSettingsUrl ''u1''))
   \<and> fetch_failed (offline (processingStatsUrl ''u1''))
   \<and> init offline iso_year ''u1''
        [JStr ''r/01-05(003)_|EX|_x_a.jpg'', JStr ''r/06-10(001)_|EX|_b.jpg''] True
      = Some \<lparr>yearsLine = None,
              ageRangeLine = Some (JStr (''0-5 '' @ arrow @ '' 6-10'')),
              chartHtml = Some (JObj [(''01-05'', JNum 1), (''06-10'', JNum 1), (''11-15'', JNum 0),
                 (''16-20'', JNum 0), (''21-30'', JNum 0), (''31-40'', JNum 0), (''41-50'', JNum 0),
                 (''51-60'', JNum 0), (''61-70'', JNum 0), (''71-80'', JNum 0), (''81+'', JNum 0)]),
              technicalLine = Some (JNum 2, None)\<rparr>"
  by (simp add: offline_def init_def init_stats_def parseFilenames_def photo_bucket_def
      bucket_match_def basename_def is_digit_def AGE_BUCKETS_def bucketOrder_def count_of_def
      fetchPresentationSettings_def fetchProcessingStats_def spread_def
      calculateYearsOfMemories_def obj_get_def render_def js_or_def bucket_label_def Let_def)

text \<open>
  C8, as amended. Each version of \<open>render\<close> inserts nothing unless one of the two
  figures its own gate tests is present: years-of-memories or the age-range label in the
  bar-chart version, the face count or years-of-memories in the stat-card version. With a
  \<open>.photo-count\<close> element on the page, the gate suppresses rendering exactly when both of
  its figures are absent; so in either version nothing is displayed when all three
  figures are absent.
\<close>

theorem render_gate:
  "((render stats True = None)
      = (\<not> truthy (obj_get stats ''yearsOfMemories'') \<and> \<not> truthy (obj_get stats ''ageRangeLabel'')))
   \<and> ((\<not> render_cards_inserts stats True)
      = (\<not> truthy (obj_get stats ''totalFacesIndexed'') \<and> \<not> truthy (obj_get stats ''yearsOfMemories'')))
   \<and> (\<not> truthy (obj_get stats ''yearsOfMemories'') \<and> \<not> truthy (obj_get stats ''totalFacesIndexed'')
        \<and> \<not> truthy (obj_get stats ''ageRangeLabel'')
      \<longrightarrow> render stats photoCountEl = None \<and> \<not> render_cards_inserts stats photoCountEl)"
  by (simp add: render_def render_cards_inserts_def Let_def)

theorem render_gate_witness:
  "\<not> truthy (obj_get [(''photoCount'', JNum 12), (''yearsOfMemories'', JNull)] ''yearsOfMemories'')
   \<and> \<not> truthy (obj_get [(''photoCount'', JNum 12), (''yearsOfMemories'', JNull)] ''totalFacesIndexed'')
   \<and> \<not> truthy (obj_get [(''photoCount'', JNum 12), (''yearsOfMemories'', JNull)] ''ageRangeLabel'')
   \<and> render [(''photoCount'', JNum 12), (''yearsOfMemories'', JNull)] True = None
   \<and> \<not> render_cards_inserts [(''photoCount'', JNum 12), (''yearsOfMemories'', JNull)] True"
  using render_gate [of "[(''photoCount'', JNum 12), (''yearsOfMemories'', JNull)]" True]
  by (simp add: obj_get_def)

text \<open>
  C8 as stated (any one of the three figures opens the gate) fails in the bar-chart
  version for a record whose only figure is the face count.
\<close>

theorem render_gate_counterexample:
  "truthy (obj_get [(''photoCount'', JNum 12), (''totalFacesIndexed'', JNum 500),
                    (''yearsOfMemories'', JNull), (''ageRangeLabel'', JNull)] ''totalFacesIndexed'')
   \<and> render [(''photoCount'', JNum 12), (''totalFacesIndexed'', JNum 500),
              (''yearsOfMemories'', JNull), (''ageRangeLabel'', JNull)] True = None"
  by (simp add: render_def obj_get_def)

end
